theory Spec2Isabelle
  imports Complex_Main "HOL-Library.Word" "HOL-Library.AList"
begin

section \<open>The frame-by-frame animation editor of \<^verbatim>\<open>src/App.js\<close>\<close>

text \<open>
  The component \<^verbatim>\<open>App\<close> keeps its state in React state cells and in one canvas
  element. The model is one record of all cells plus the canvas; every event handler is
  a function from the state it closes over to the state after its updates, and the three
  \<^verbatim>\<open>useEffect\<close> bodies are functions run after a handler according to their
  dependency lists. Handlers are modelled on a rendered (settled) state, where the values
  a handler closes over are the current ones.
\<close>

subsection \<open>Constants\<close>

definition CANVAS_WIDTH :: nat where
  "CANVAS_WIDTH = 520"

definition CANVAS_HEIGHT :: nat where
  "CANVAS_HEIGHT = 390"

definition FRAME_MS :: nat where
  "FRAME_MS = 100"

subsection \<open>Pixel data and canvases\<close>

text \<open>
  An \<^verbatim>\<open>ImageData\<close> of the program is always taken from the whole canvas
  (\<^verbatim>\<open>getImageData(0, 0, CANVAS_WIDTH, CANVAS_HEIGHT)\<close>): its bytes, RGBA and row-major.
  A frame is such an object or \<^verbatim>\<open>null\<close>, which is \<open>None\<close> here.
\<close>

type_synonym image_data = "8 word list"

type_synonym frame = "image_data option"

definition getEmptyFrame :: frame where
  "getEmptyFrame = None"

record canvas =
  cv_width :: nat
  cv_height :: nat
  cv_data :: image_data

text \<open>A canvas element fresh from \<^verbatim>\<open>createElement\<close> or from the first render: transparent black.\<close>

definition new_canvas :: "nat \<Rightarrow> nat \<Rightarrow> canvas" where
  "new_canvas w h = \<lparr>cv_width = w, cv_height = h, cv_data = replicate (w * h * 4) 0\<rparr>"

text \<open>
  The three context calls of the program, each only ever applied to the whole canvas:
  \<^verbatim>\<open>clearRect(0, 0, W, H)\<close>, \<^verbatim>\<open>putImageData(img, 0, 0)\<close> with a full-size image, and
  \<^verbatim>\<open>getImageData(0, 0, W, H)\<close>. The canvas is taken to hold exactly the bytes written.
\<close>

definition clearRect :: "canvas \<Rightarrow> canvas" where
  "clearRect c = c\<lparr>cv_data := replicate (cv_width c * cv_height c * 4) 0\<rparr>"

definition putImageData :: "image_data \<Rightarrow> canvas \<Rightarrow> canvas" where
  "putImageData img c = c\<lparr>cv_data := img\<rparr>"

definition getImageData :: "canvas \<Rightarrow> image_data" where
  "getImageData c = cv_data c"

definition cloneImageData :: "canvas \<Rightarrow> image_data" where
  "cloneImageData c = getImageData c"

subsection \<open>JavaScript array operations used by the handlers\<close>

text \<open>\<^verbatim>\<open>xs[i]\<close>: the element, or \<^verbatim>\<open>undefined\<close> (\<open>None\<close>) out of range.\<close>

definition js_index :: "'a list \<Rightarrow> nat \<Rightarrow> 'a option" where
  "js_index xs i = (if i < length xs then Some (xs ! i) else None)"

text \<open>\<^verbatim>\<open>xs.slice(a, b)\<close> and \<^verbatim>\<open>xs.slice(a)\<close> for non-negative integers.\<close>

definition slice2 :: "'a list \<Rightarrow> nat \<Rightarrow> nat \<Rightarrow> 'a list" where
  "slice2 xs a b = drop a (take b xs)"

definition slice1 :: "'a list \<Rightarrow> nat \<Rightarrow> 'a list" where
  "slice1 xs a = drop a xs"

text \<open>\<^verbatim>\<open>xs.splice(start, 1)\<close> on a copy: the array without the element at \<open>start\<close>, if any.\<close>

definition splice1 :: "'a list \<Rightarrow> nat \<Rightarrow> 'a list" where
  "splice1 xs start = take start xs @ drop (start + 1) xs"

text \<open>\<^verbatim>\<open>xs.map((x, i) => ...)\<close>: the callback receives the element and its index.\<close>

definition map_index :: "('a \<Rightarrow> nat \<Rightarrow> 'b) \<Rightarrow> 'a list \<Rightarrow> 'b list" where
  "map_index g xs = map (\<lambda>(i, x). g x i) (enumerate 0 xs)"

text \<open>
  \<^verbatim>\<open>a % n\<close> on non-negative integers; \<^verbatim>\<open>a % 0\<close> is \<^verbatim>\<open>NaN\<close>, which is no index:
  \<open>None\<close>.
\<close>

definition js_mod :: "nat \<Rightarrow> nat \<Rightarrow> nat option" where
  "js_mod a n = (if n = 0 then None else Some (a mod n))"

subsection \<open>JavaScript numbers\<close>

text \<open>
  A number of the program is an IEEE 754 double: a finite value, given by the rational it
  denotes, an infinity or \<^verbatim>\<open>NaN\<close>. The two zeros are one value here; the program never
  tells them apart.
\<close>

datatype js_num = Finite rat | PosInf | NegInf | NaN

text \<open>The number of binary digits of a positive integer.\<close>

function bit_length :: "int \<Rightarrow> nat" where
  "bit_length a = (if a \<le> 0 then 0 else Suc (bit_length (a div 2)))"
  by pat_completeness auto
termination
  by (relation "measure nat") auto

declare bit_length.simps [simp del]

definition pow2 :: "int \<Rightarrow> rat" where
  "pow2 e = (if 0 \<le> e then 2 ^ nat e else 1 / 2 ^ nat (- e))"

text \<open>For a positive rational \<open>q\<close>, the exponent \<open>e\<close> with \<open>2 ^ e \<le> q < 2 ^ (e + 1)\<close>.\<close>

definition ilog2 :: "rat \<Rightarrow> int" where
  "ilog2 q =
     (case quotient_of q of (a, b) \<Rightarrow>
        let d = int (bit_length a) - int (bit_length b)
        in if pow2 d \<le> q then d else d - 1)"

text \<open>Rounding to the nearest integer, a tie to the even one.\<close>

definition round_half_even :: "rat \<Rightarrow> int" where
  "round_half_even q =
     (let f = \<lfloor>q\<rfloor>; r = q - of_int f
      in if r < 1 / 2 then f else if 1 / 2 < r then f + 1 else if even f then f else f + 1)"

text \<open>
  The double nearest to an exact result (round to nearest, ties to even): 53 significant
  bits, the smallest step \<open>2 ^ (- 1074)\<close> of the subnormal range, and an infinity once the
  rounded magnitude reaches \<open>2 ^ 1024\<close>.
\<close>

definition round64 :: "rat \<Rightarrow> js_num" where
  "round64 q =
     (if q = 0 then Finite 0
      else let t = max (ilog2 \<bar>q\<bar>) (- 1022) - 52;
               r = of_int (round_half_even (q / pow2 t)) * pow2 t
           in if 2 ^ 1024 \<le> \<bar>r\<bar> then (if 0 < q then PosInf else NegInf) else Finite r)"

text \<open>\<^verbatim>\<open>x - y\<close> on doubles.\<close>

fun js_sub :: "js_num \<Rightarrow> js_num \<Rightarrow> js_num" where
  "js_sub NaN y = NaN"
| "js_sub x NaN = NaN"
| "js_sub PosInf PosInf = NaN"
| "js_sub NegInf NegInf = NaN"
| "js_sub PosInf y = PosInf"
| "js_sub NegInf y = NegInf"
| "js_sub (Finite a) PosInf = NegInf"
| "js_sub (Finite a) NegInf = PosInf"
| "js_sub (Finite a) (Finite b) = round64 (a - b)"

text \<open>\<^verbatim>\<open>Math.floor\<close>: exact on a finite double, the argument itself otherwise.\<close>

fun js_floor :: "js_num \<Rightarrow> js_num" where
  "js_floor (Finite q) = Finite (of_int \<lfloor>q\<rfloor>)"
| "js_floor x = x"

subsection \<open>The state of the component\<close>

record app =
  canvas :: canvas
  tool :: string
  color :: string
  frames :: "frame list"
  currentFrame :: nat
  playing :: bool
  drawing :: bool
  lastPt :: "js_num \<times> js_num"
  dirty :: bool

text \<open>
  The initial values of the \<^verbatim>\<open>useState\<close> cells, with the canvas of the first render
  (the load effect of the first render clears it, which leaves it as it is).
\<close>

definition init_app :: app where
  "init_app = \<lparr>canvas = new_canvas CANVAS_WIDTH CANVAS_HEIGHT, tool = ''brush'',
     color = ''#222222'', frames = [None], currentFrame = 0, playing = False,
     drawing = False, lastPt = (Finite 0, Finite 0), dirty = False\<rparr>"

subsection \<open>The effects\<close>

text \<open>
  Effect 1, dependencies \<^verbatim>\<open>[currentFrame, frames]\<close>: clear the canvas, then draw the
  current frame when \<^verbatim>\<open>frames[currentFrame]\<close> is truthy (neither \<^verbatim>\<open>null\<close> nor
  \<^verbatim>\<open>undefined\<close>).
\<close>

definition loadCurrentFrame :: "app \<Rightarrow> app" where
  "loadCurrentFrame s =
     (let c = clearRect (canvas s)
      in s\<lparr>canvas := (case js_index (frames s) (currentFrame s) of
                         Some (Some img) \<Rightarrow> putImageData img c
                       | _ \<Rightarrow> c)\<rparr>)"

text \<open>
  The update both commits make: \<^verbatim>\<open>frames.map((f, i) => (i === currentFrame ? img : f))\<close>.
\<close>

definition commit :: "nat \<Rightarrow> image_data \<Rightarrow> frame list \<Rightarrow> frame list" where
  "commit c img fs = map_index (\<lambda>f i. if i = c then Some img else f) fs"

text \<open>Effect 2, dependencies \<^verbatim>\<open>[dirty]\<close>: commit the canvas when dirty, and clear the flag.\<close>

definition saveFrameOnDirty :: "app \<Rightarrow> app" where
  "saveFrameOnDirty s =
     (if \<not> dirty s then s
      else let img = getImageData (canvas s)
           in s\<lparr>frames := commit (currentFrame s) img (frames s), dirty := False\<rparr>)"

text \<open>
  One commit of a render: the effects whose dependencies differ from the previous render
  run in the order of their declaration. \<open>framesSet\<close> says that \<^verbatim>\<open>setFrames\<close> was called
  (a new array, unequal to the old one for React whatever its content).
\<close>

definition effects_pass :: "app \<Rightarrow> bool \<Rightarrow> app \<Rightarrow> app" where
  "effects_pass prev framesSet s =
     (let s1 = (if currentFrame s \<noteq> currentFrame prev \<or> framesSet
                then loadCurrentFrame s else s)
      in if dirty s \<noteq> dirty prev then saveFrameOnDirty s1 else s1)"

text \<open>
  Only effect 2 sets state, and only when it commits. Then a second render follows, in
  which \<open>frames\<close> and \<open>dirty\<close> have changed; there effect 2 returns at once, so a third
  render never happens.
\<close>

definition run_effects :: "app \<Rightarrow> bool \<Rightarrow> app \<Rightarrow> app" where
  "run_effects prev framesSet s =
     (let s' = effects_pass prev framesSet s
      in if dirty s' \<noteq> dirty s then effects_pass s True s' else s')"

subsection \<open>Pointer handlers\<close>

text \<open>
  A pointer event as the handlers read it: \<^verbatim>\<open>clientX\<close>, \<^verbatim>\<open>clientY\<close> and the
  \<^verbatim>\<open>left\<close> and \<^verbatim>\<open>top\<close> of the canvas's bounding rectangle, all doubles. The
  handlers compute \<^verbatim>\<open>Math.floor(e.clientX - rect.left)\<close> and
  \<^verbatim>\<open>Math.floor(e.clientY - rect.top)\<close> in double arithmetic.
\<close>

record pointer_event =
  clientX :: js_num
  clientY :: js_num
  rect_left :: js_num
  rect_top :: js_num

definition event_x :: "pointer_event \<Rightarrow> js_num" where
  "event_x e = js_floor (js_sub (clientX e) (rect_left e))"

definition event_y :: "pointer_event \<Rightarrow> js_num" where
  "event_y e = js_floor (js_sub (clientY e) (rect_top e))"


text \<open>
  The line segment is drawn by the browser (\<^verbatim>\<open>strokeStyle\<close>, \<^verbatim>\<open>lineWidth = 2\<close>,
  \<^verbatim>\<open>moveTo\<close>, \<^verbatim>\<open>lineTo\<close>, \<^verbatim>\<open>stroke\<close>): the parameter \<open>stroke\<close> takes the colour,
  the line width, both end points and the canvas, and returns the canvas drawn on.
\<close>

type_synonym stroke_fn =
  "string \<Rightarrow> nat \<Rightarrow> js_num \<times> js_num \<Rightarrow> js_num \<times> js_num \<Rightarrow> canvas \<Rightarrow> canvas"

definition handlePointerMove :: "stroke_fn \<Rightarrow> pointer_event \<Rightarrow> app \<Rightarrow> app" where
  "handlePointerMove stroke e s =
     (if \<not> drawing s \<or> tool s \<noteq> ''brush'' then s
      else let x = event_x e; y = event_y e
           in s\<lparr>canvas := stroke (color s) 2 (lastPt s) (x, y) (canvas s),
                lastPt := (x, y), dirty := True\<rparr>)"

definition handlePointerUp :: "app \<Rightarrow> app" where
  "handlePointerUp s = s\<lparr>drawing := False\<rparr>"

subsection \<open>Frame handlers\<close>

definition addFrame :: "app \<Rightarrow> app" where
  "addFrame s =
     s\<lparr>frames := slice2 (frames s) 0 (currentFrame s + 1) @ [getEmptyFrame]
                   @ slice1 (frames s) (currentFrame s + 1),
       currentFrame := currentFrame s + 1\<rparr>"

definition deleteFrame :: "app \<Rightarrow> app" where
  "deleteFrame s =
     (if length (frames s) < 2 then s
      else s\<lparr>frames := splice1 (frames s) (currentFrame s),
             currentFrame := (if 0 < currentFrame s then currentFrame s - 1 else 0)\<rparr>)"

definition copyFrame :: "app \<Rightarrow> app" where
  "copyFrame s =
     (let cur = getImageData (canvas s)
      in s\<lparr>frames := commit (currentFrame s) cur (frames s), dirty := False\<rparr>)"

subsection \<open>Events: a handler and the effects it triggers\<close>


definition on_pointerMove :: "stroke_fn \<Rightarrow> pointer_event \<Rightarrow> app \<Rightarrow> app" where
  "on_pointerMove stroke e s = run_effects s False (handlePointerMove stroke e s)"

definition on_pointerUp :: "app \<Rightarrow> app" where
  "on_pointerUp s = run_effects s False (handlePointerUp s)"

definition click_addFrame :: "app \<Rightarrow> app" where
  "click_addFrame s = run_effects s True (addFrame s)"

definition click_deleteFrame :: "app \<Rightarrow> app" where
  "click_deleteFrame s = run_effects s (\<not> length (frames s) < 2) (deleteFrame s)"

definition click_copyFrame :: "app \<Rightarrow> app" where
  "click_copyFrame s = run_effects s True (copyFrame s)"

text \<open>A click on the thumbnail of frame \<open>i\<close>: \<^verbatim>\<open>setCurrentFrame(i)\<close>.\<close>

definition click_thumbnail :: "nat \<Rightarrow> app \<Rightarrow> app" where
  "click_thumbnail i s = run_effects s False (s\<lparr>currentFrame := i\<rparr>)"

text \<open>The play button: \<^verbatim>\<open>setPlaying(p => !p)\<close>.\<close>

definition click_play :: "app \<Rightarrow> app" where
  "click_play s = run_effects s False (s\<lparr>playing := \<not> playing s\<rparr>)"

subsection \<open>Playback\<close>

text \<open>
  Effect 3, dependencies \<^verbatim>\<open>[playing, frames.length]\<close>, keeps an interval timer exactly
  while \<open>playing\<close> holds (its cleanup clears the timer), and the callback closes over the
  length of the render that installed it, which is the current one. A tick that finds no
  timer is no event at all: the state stays. A tick on an empty array would store
  \<^verbatim>\<open>NaN\<close>: \<open>None\<close>.
\<close>

definition playbackTick :: "app \<Rightarrow> app option" where
  "playbackTick s =
     (if \<not> playing s then Some s
      else case js_mod (currentFrame s + 1) (length (frames s)) of
             None \<Rightarrow> None
           | Some c \<Rightarrow> Some (run_effects s False (s\<lparr>currentFrame := c\<rparr>)))"

fun ticks :: "nat \<Rightarrow> app \<Rightarrow> app option" where
  "ticks 0 s = Some s"
| "ticks (Suc k) s = (case playbackTick s of None \<Rightarrow> None | Some s' \<Rightarrow> ticks k s')"

subsection \<open>Sequences of frame operations\<close>

datatype frame_op = AddFrame | DeleteFrame

fun apply_frame_op :: "frame_op \<Rightarrow> app \<Rightarrow> app" where
  "apply_frame_op AddFrame s = click_addFrame s"
| "apply_frame_op DeleteFrame s = click_deleteFrame s"

fun run_frame_ops :: "frame_op list \<Rightarrow> app \<Rightarrow> app" where
  "run_frame_ops [] s = s"
| "run_frame_ops (x # xs) s = run_frame_ops xs (apply_frame_op x s)"

text \<open>The invariant of the frame store: at least one frame, and the cursor on a frame.\<close>

definition store_inv :: "app \<Rightarrow> bool" where
  "store_inv s = (1 \<le> length (frames s) \<and> currentFrame s < length (frames s))"

subsection \<open>Export\<close>

text \<open>The decimal digits of a number, as the template literal prints \<^verbatim>\<open>i + 1\<close>.\<close>

definition digit_char :: "nat \<Rightarrow> char" where
  "digit_char d = char_of (48 + d)"

fun decimal :: "nat \<Rightarrow> string" where
  "decimal n = (if n < 10 then [digit_char n] else decimal (n div 10) @ [digit_char (n mod 10)])"

declare decimal.simps [simp del]

definition frame_file_name :: "nat \<Rightarrow> string" where
  "frame_file_name i = ''frame'' @ decimal (i + 1) @ ''.png''"

text \<open>
  \<^verbatim>\<open>toDataURL(type)\<close>: the encoded image has the size of the canvas it is taken from,
  the requested type and the canvas's pixels.
\<close>

record data_url =
  mime :: string
  img_width :: nat
  img_height :: nat
  img_data :: image_data

definition toDataURL :: "string \<Rightarrow> canvas \<Rightarrow> data_url" where
  "toDataURL ty c = \<lparr>mime = ty, img_width = cv_width c, img_height = cv_height c,
     img_data = cv_data c\<rparr>"

text \<open>The off-screen canvas made for one frame, with the frame put on it.\<close>

definition offscreen :: "image_data \<Rightarrow> canvas" where
  "offscreen img = putImageData img (new_canvas CANVAS_WIDTH CANVAS_HEIGHT)"

text \<open>
  \<^verbatim>\<open>zip.file(name, data)\<close> adds the entry, or replaces the entry of that name. The
  archive is the list of its entries in the order they were added.
\<close>

type_synonym zip = "(string \<times> data_url) list"

definition zip_file :: "string \<Rightarrow> data_url \<Rightarrow> zip \<Rightarrow> zip" where
  "zip_file name d z = AList.update name d z"

definition export_step :: "zip \<Rightarrow> nat \<times> frame \<Rightarrow> zip" where
  "export_step z p =
     (case p of (i, img) \<Rightarrow>
        (case img of
           None \<Rightarrow> z
         | Some d \<Rightarrow> zip_file (frame_file_name i) (toDataURL ''image/png'' (offscreen d)) z))"

record download =
  dl_name :: string
  dl_zip :: zip

definition handleExport :: "app \<Rightarrow> download" where
  "handleExport s =
     \<lparr>dl_name = ''animation.zip'',
      dl_zip = foldl export_step [] (enumerate 0 (frames s))\<rparr>"

subsection \<open>Example states\<close>

definition white_image :: image_data where
  "white_image = replicate (CANVAS_WIDTH * CANVAS_HEIGHT * 4) 255"

definition three_frames :: app where
  "three_frames = init_app\<lparr>frames := [None, Some white_image, None], currentFrame := 1\<rparr>"

definition playing_three :: app where
  "playing_three = three_frames\<lparr>playing := True\<rparr>"

text \<open>A state whose canvas shows pixels that no frame holds.\<close>

definition scribbled :: app where
  "scribbled = init_app\<lparr>frames := [None, Some white_image],
     canvas := putImageData white_image (canvas init_app)\<rparr>"

text \<open>
  Three frames with the cursor on the blank first one, while the canvas shows white
  pixels that no commit has stored there.
\<close>

definition unsaved_three :: app where
  "unsaved_three = three_frames\<lparr>currentFrame := 0,
     canvas := putImageData white_image (canvas init_app)\<rparr>"

text \<open>
  A pointer on the right border of the canvas element: the bounding rectangle includes the
  one-pixel border on each side, so the offset 521 lies beyond the 520 columns.
\<close>

definition border_event :: pointer_event where
  "border_event =
     \<lparr>clientX = Finite 521, clientY = Finite 100, rect_left = Finite 0, rect_top = Finite 0\<rparr>"

definition ink :: stroke_fn where
  "ink col w p q c = c\<lparr>cv_data := (cv_data c)[0 := 255]\<rparr>"

subsection \<open>Notions of the specification\<close>



section \<open>Properties\<close>

subsection \<open>Array operations and effects\<close>

lemma commit_eq: "commit c img fs = fs[c := Some img]"
  unfolding commit_def map_index_def
  by (rule nth_equalityI) (auto simp: nth_enumerate_eq)

lemma frames_run_effects:
  "dirty s = dirty prev \<Longrightarrow> frames (run_effects prev b s) = frames s"
  by (simp add: run_effects_def effects_pass_def loadCurrentFrame_def Let_def)

lemma currentFrame_run_effects: "currentFrame (run_effects prev b s) = currentFrame s"
  by (simp add: run_effects_def effects_pass_def loadCurrentFrame_def saveFrameOnDirty_def Let_def)

lemma run_effects_idle: "run_effects s False s = s"
  by (simp add: run_effects_def effects_pass_def)

subsection \<open>Adding and deleting frames\<close>

lemma frames_click_addFrame:
  "frames (click_addFrame s) =
     take (currentFrame s + 1) (frames s) @ [None] @ drop (currentFrame s + 1) (frames s)"
  by (simp add: click_addFrame_def frames_run_effects addFrame_def slice2_def slice1_def
      getEmptyFrame_def)

lemma currentFrame_click_addFrame: "currentFrame (click_addFrame s) = currentFrame s + 1"
  by (simp add: click_addFrame_def currentFrame_run_effects addFrame_def)

lemma click_deleteFrame_single: "length (frames s) < 2 \<Longrightarrow> click_deleteFrame s = s"
  by (simp add: click_deleteFrame_def deleteFrame_def run_effects_idle)

lemma frames_click_deleteFrame:
  "2 \<le> length (frames s) \<Longrightarrow>
   frames (click_deleteFrame s) =
     take (currentFrame s) (frames s) @ drop (currentFrame s + 1) (frames s)"
  by (simp add: click_deleteFrame_def frames_run_effects deleteFrame_def splice1_def)

lemma currentFrame_click_deleteFrame:
  "2 \<le> length (frames s) \<Longrightarrow> currentFrame (click_deleteFrame s) = currentFrame s - 1"
  by (simp add: click_deleteFrame_def currentFrame_run_effects deleteFrame_def)

lemma store_inv_addFrame: "store_inv s \<Longrightarrow> store_inv (click_addFrame s)"
  by (auto simp add: store_inv_def frames_click_addFrame currentFrame_click_addFrame)

lemma store_inv_deleteFrame: "store_inv s \<Longrightarrow> store_inv (click_deleteFrame s)"
proof (cases "length (frames s) < 2")
  case True
  assume "store_inv s"
  with True show ?thesis by (simp add: click_deleteFrame_single)
next
  case False
  assume "store_inv s"
  with False show ?thesis
    by (auto simp add: store_inv_def frames_click_deleteFrame currentFrame_click_deleteFrame)
qed

lemma store_inv_run_frame_ops: "store_inv s \<Longrightarrow> store_inv (run_frame_ops ops s)"
proof (induction ops arbitrary: s)
  case Nil
  then show ?case by simp
next
  case (Cons x xs)
  have "store_inv (apply_frame_op x s)"
    using Cons.prems by (cases x) (simp_all add: store_inv_addFrame store_inv_deleteFrame)
  then show ?case by (simp add: Cons.IH)
qed

lemma store_inv_init: "store_inv init_app"
  by (simp add: store_inv_def init_app_def)

text \<open>
  C1. Whatever sequence of Add Frame and Delete Frame clicks is applied to the initial
  state with its one blank frame, the state reached has at least one frame and its cursor
  is the index of a frame. Every prefix of a sequence is a sequence, so this holds after
  every single call.
\<close>

theorem frame_store_invariant:
  "1 \<le> length (frames (run_frame_ops ops init_app)) \<and>
   currentFrame (run_frame_ops ops init_app) < length (frames (run_frame_ops ops init_app))"
  using store_inv_run_frame_ops [OF store_inv_init, of ops] by (simp add: store_inv_def)

text \<open>
  C2. With the cursor \<open>c\<close> on a frame, Add Frame puts a blank frame right after position
  \<open>c\<close>, moves the cursor to \<open>c + 1\<close> and makes the store one frame longer. Reading
  position \<open>c + 1\<close> afterwards gives the blank frame; the frames up to \<open>c\<close> are read at
  the same index as before, and every frame behind \<open>c\<close> is read one index higher.
\<close>

theorem addFrame_inserts_blank_after_cursor:
  assumes "currentFrame s < length (frames s)"
  shows "frames (click_addFrame s) =
           take (currentFrame s + 1) (frames s) @ [None] @ drop (currentFrame s + 1) (frames s) \<and>
         currentFrame (click_addFrame s) = currentFrame s + 1 \<and>
         length (frames (click_addFrame s)) = length (frames s) + 1 \<and>
         js_index (frames (click_addFrame s)) (currentFrame s + 1) = Some None \<and>
         (\<forall>i. i \<le> currentFrame s \<longrightarrow>
            js_index (frames (click_addFrame s)) i = js_index (frames s) i) \<and>
         (\<forall>i. currentFrame s < i \<longrightarrow>
            js_index (frames (click_addFrame s)) (i + 1) = js_index (frames s) i)"
proof -
  let ?c = "currentFrame s" and ?fs = "frames s"
  have blank: "js_index (frames (click_addFrame s)) (?c + 1) = Some None"
    using assms by (simp add: frames_click_addFrame js_index_def nth_append)
  have below: "js_index (frames (click_addFrame s)) i = js_index ?fs i" if "i \<le> ?c" for i
    using assms that by (simp add: frames_click_addFrame js_index_def nth_append)
  have above: "js_index (frames (click_addFrame s)) (i + 1) = js_index ?fs i" if "?c < i" for i
    using assms that by (auto simp add: frames_click_addFrame js_index_def nth_append min_def)
  show ?thesis
    using assms blank below above
    by (simp add: frames_click_addFrame currentFrame_click_addFrame)
qed

theorem addFrame_inserts_blank_after_cursor_witness:
  "currentFrame three_frames < length (frames three_frames) \<and>
   frames (click_addFrame three_frames) = [None, Some white_image, None, None] \<and>
   currentFrame (click_addFrame three_frames) = 2 \<and>
   js_index (frames (click_addFrame three_frames)) 2 = Some None"
proof -
  have h: "currentFrame three_frames < length (frames three_frames)"
    by (simp add: three_frames_def)
  show ?thesis
    using h addFrame_inserts_blank_after_cursor [OF h]
    by (simp add: three_frames_def js_index_def)
qed

text \<open>
  C3. Delete Frame on a store of one frame changes nothing at all, so the length and the
  frame at position 0 stay. On a store of two or more frames with the cursor on a frame it
  removes the frame at the cursor and no other, the store gets one frame shorter, and the
  new cursor is \<open>max 0 (cursor - 1)\<close>. A store of at least one frame keeps at least one.
\<close>

theorem deleteFrame_noop_or_removes_cursor_frame:
  "(length (frames s) = 1 \<longrightarrow> click_deleteFrame s = s) \<and>
   (2 \<le> length (frames s) \<and> currentFrame s < length (frames s) \<longrightarrow>
      frames (click_deleteFrame s) =
        take (currentFrame s) (frames s) @ drop (currentFrame s + 1) (frames s) \<and>
      length (frames (click_deleteFrame s)) = length (frames s) - 1 \<and>
      int (currentFrame (click_deleteFrame s)) = max 0 (int (currentFrame s) - 1)) \<and>
   (1 \<le> length (frames s) \<longrightarrow> 1 \<le> length (frames (click_deleteFrame s)))"
proof -
  have one: "click_deleteFrame s = s" if "length (frames s) = 1"
    using that by (simp add: click_deleteFrame_single)
  have keep: "1 \<le> length (frames (click_deleteFrame s))" if "1 \<le> length (frames s)"
  proof (cases "length (frames s) < 2")
    case True
    with that show ?thesis by (simp add: click_deleteFrame_single)
  next
    case False
    then show ?thesis by (simp add: frames_click_deleteFrame)
  qed
  have two: "length (frames (click_deleteFrame s)) = length (frames s) - 1 \<and>
      int (currentFrame (click_deleteFrame s)) = max 0 (int (currentFrame s) - 1)"
    if "2 \<le> length (frames s)" "currentFrame s < length (frames s)"
    using that by (auto simp add: frames_click_deleteFrame currentFrame_click_deleteFrame)
  show ?thesis using one keep two by (simp add: frames_click_deleteFrame)
qed

theorem deleteFrame_noop_or_removes_cursor_frame_witness:
  "length (frames init_app) = 1 \<and> click_deleteFrame init_app = init_app \<and>
   2 \<le> length (frames three_frames) \<and>
   currentFrame three_frames < length (frames three_frames) \<and>
   frames (click_deleteFrame three_frames) = [None, None] \<and>
   currentFrame (click_deleteFrame three_frames) = 0"
proof -
  have h1: "length (frames init_app) = 1"
    by (simp add: init_app_def)
  have h2: "2 \<le> length (frames three_frames) \<and>
            currentFrame three_frames < length (frames three_frames)"
    by (simp add: three_frames_def)
  show ?thesis
    using h1 h2 deleteFrame_noop_or_removes_cursor_frame [of init_app]
      deleteFrame_noop_or_removes_cursor_frame [of three_frames]
    by (simp add: three_frames_def)
qed

text \<open>
  C10. Delete Frame on a store of two or more frames, with the cursor \<open>c\<close> on a frame,
  keeps every other frame with its content: a frame below \<open>c\<close> is read at the index it
  had, a frame above \<open>c\<close> at its index minus one.
\<close>

theorem deleteFrame_keeps_other_frames:
  assumes "2 \<le> length (frames s)" and "currentFrame s < length (frames s)"
  shows "(\<forall>i. i < currentFrame s \<longrightarrow>
            js_index (frames (click_deleteFrame s)) i = js_index (frames s) i) \<and>
         (\<forall>i. currentFrame s < i \<longrightarrow>
            js_index (frames (click_deleteFrame s)) (i - 1) = js_index (frames s) i)"
proof -
  have below: "js_index (frames (click_deleteFrame s)) i = js_index (frames s) i"
    if "i < currentFrame s" for i
    using assms that by (simp add: frames_click_deleteFrame js_index_def nth_append)
  have above: "js_index (frames (click_deleteFrame s)) (i - 1) = js_index (frames s) i"
    if "currentFrame s < i" for i
    using assms that
    by (auto simp add: frames_click_deleteFrame js_index_def nth_append min_def)
  show ?thesis using below above by simp
qed

theorem deleteFrame_keeps_other_frames_witness:
  "2 \<le> length (frames three_frames) \<and>
   currentFrame three_frames < length (frames three_frames) \<and>
   js_index (frames (click_deleteFrame three_frames)) 0 = Some None \<and>
   js_index (frames (click_deleteFrame three_frames)) 1 = Some None"
proof -
  have h1: "2 \<le> length (frames three_frames)"
    and h2: "currentFrame three_frames < length (frames three_frames)"
    by (simp_all add: three_frames_def)
  note keeps = deleteFrame_keeps_other_frames [OF h1 h2]
  have "js_index (frames (click_deleteFrame three_frames)) 0 = js_index (frames three_frames) 0"
    using keeps by (simp add: three_frames_def)
  moreover have "js_index (frames (click_deleteFrame three_frames)) (2 - 1) =
      js_index (frames three_frames) 2"
    using keeps [THEN conjunct2, rule_format, of 2] by (simp add: three_frames_def)
  ultimately show ?thesis using h1 h2 by (simp add: three_frames_def js_index_def)
qed

subsection \<open>Committing the canvas\<close>

lemma canvas_put_own: "putImageData (getImageData c) (clearRect c) = c"
  by (simp add: putImageData_def getImageData_def clearRect_def)

lemma js_index_commit: "c < length fs \<Longrightarrow> js_index (commit c img fs) c = Some (Some img)"
  by (simp add: commit_eq js_index_def)

lemma commit_twice: "commit c img (commit c img fs) = commit c img fs"
  by (simp add: commit_eq)

lemma frames_click_copyFrame:
  "frames (click_copyFrame s) = commit (currentFrame s) (getImageData (canvas s)) (frames s)"
  by (simp add: click_copyFrame_def run_effects_def effects_pass_def copyFrame_def Let_def
      loadCurrentFrame_def saveFrameOnDirty_def)

lemma click_copyFrame_state:
  "currentFrame s < length (frames s) \<Longrightarrow>
   click_copyFrame s =
     s\<lparr>frames := commit (currentFrame s) (getImageData (canvas s)) (frames s), dirty := False\<rparr>"
  by (simp add: click_copyFrame_def run_effects_def effects_pass_def copyFrame_def Let_def
      loadCurrentFrame_def saveFrameOnDirty_def js_index_commit canvas_put_own)

lemma frames_saveFrameOnDirty:
  "dirty s \<Longrightarrow>
   frames (saveFrameOnDirty s) = commit (currentFrame s) (getImageData (canvas s)) (frames s)"
  by (simp add: saveFrameOnDirty_def Let_def)

text \<open>
  After a move of the brush the effects commit the canvas drawn on, and leave it shown.
\<close>

lemma on_pointerMove_commits:
  assumes "drawing s" and "tool s = ''brush''" and "\<not> dirty s"
    and "currentFrame s < length (frames s)"
  shows "on_pointerMove stroke e s =
     s\<lparr>canvas := stroke (color s) 2 (lastPt s) (event_x e, event_y e) (canvas s),
       lastPt := (event_x e, event_y e),
       frames := commit (currentFrame s)
         (getImageData (stroke (color s) 2 (lastPt s) (event_x e, event_y e) (canvas s)))
         (frames s)\<rparr>"
  using assms
  by (simp add: on_pointerMove_def handlePointerMove_def run_effects_def effects_pass_def
      saveFrameOnDirty_def loadCurrentFrame_def Let_def js_index_commit canvas_put_own)

text \<open>
  C4. With the cursor \<open>c\<close> on a frame, a commit of the surface \<open>S\<close> at \<open>c\<close> followed by a
  read of \<open>c\<close> gives exactly \<open>S\<close>, and a second commit of the same \<open>S\<close> at \<open>c\<close> leaves the
  store as the first left it. Save Frame is this commit with the canvas's pixels, and a
  second Save Frame right after the first changes nothing in the whole state; the commit
  of the dirty effect is the same commit.
\<close>

theorem commit_read_roundtrip_idempotent:
  assumes "currentFrame s < length (frames s)"
  shows "(\<forall>S. js_index (commit (currentFrame s) S (frames s)) (currentFrame s) = Some (Some S) \<and>
              commit (currentFrame s) S (commit (currentFrame s) S (frames s)) =
                commit (currentFrame s) S (frames s)) \<and>
         frames (click_copyFrame s) =
           commit (currentFrame s) (getImageData (canvas s)) (frames s) \<and>
         js_index (frames (click_copyFrame s)) (currentFrame s) =
           Some (Some (getImageData (canvas s))) \<and>
         click_copyFrame (click_copyFrame s) = click_copyFrame s \<and>
         (dirty s \<longrightarrow>
            frames (saveFrameOnDirty s) =
              commit (currentFrame s) (getImageData (canvas s)) (frames s) \<and>
            js_index (frames (saveFrameOnDirty s)) (currentFrame s) =
              Some (Some (getImageData (canvas s))))"
proof -
  have twice: "click_copyFrame (click_copyFrame s) = click_copyFrame s"
  proof -
    let ?t = "click_copyFrame s"
    have t: "?t = s\<lparr>frames := commit (currentFrame s) (getImageData (canvas s)) (frames s),
        dirty := False\<rparr>"
      using assms by (rule click_copyFrame_state)
    have len: "currentFrame ?t < length (frames ?t)"
      using assms by (simp add: t commit_eq)
    show ?thesis
      by (subst click_copyFrame_state [OF len]) (simp add: t commit_twice)
  qed
  show ?thesis
    using assms twice
    by (simp add: frames_click_copyFrame frames_saveFrameOnDirty js_index_commit commit_twice)
qed

theorem commit_read_roundtrip_idempotent_witness:
  "currentFrame scribbled < length (frames scribbled) \<and> dirty (scribbled\<lparr>dirty := True\<rparr>) \<and>
   js_index (frames (click_copyFrame scribbled)) 0 = Some (Some white_image) \<and>
   click_copyFrame (click_copyFrame scribbled) = click_copyFrame scribbled \<and>
   js_index (frames (saveFrameOnDirty (scribbled\<lparr>dirty := True\<rparr>))) 0 = Some (Some white_image)"
proof -
  have h: "currentFrame scribbled < length (frames scribbled)"
    and h': "currentFrame (scribbled\<lparr>dirty := True\<rparr>) < length (frames (scribbled\<lparr>dirty := True\<rparr>))"
    by (simp_all add: scribbled_def init_app_def)
  have c: "currentFrame scribbled = 0"
    "getImageData (canvas scribbled) = white_image"
    by (simp_all add: scribbled_def init_app_def getImageData_def putImageData_def)
  show ?thesis
    using h commit_read_roundtrip_idempotent [OF h] commit_read_roundtrip_idempotent [OF h']
    by (simp add: c)
qed

subsection \<open>Playback\<close>

lemma playing_run_effects: "playing (run_effects prev b s) = playing s"
  by (simp add: run_effects_def effects_pass_def loadCurrentFrame_def saveFrameOnDirty_def Let_def)

lemma dirty_run_effects_same: "dirty s = dirty prev \<Longrightarrow> dirty (run_effects prev b s) = dirty s"
  by (simp add: run_effects_def effects_pass_def loadCurrentFrame_def Let_def)

lemma playbackTick_playing:
  assumes "playing s" and "frames s \<noteq> []"
  shows "\<exists>s'. playbackTick s = Some s' \<and>
           currentFrame s' = (currentFrame s + 1) mod length (frames s) \<and>
           frames s' = frames s \<and> playing s'"
  using assms
  by (simp add: playbackTick_def js_mod_def currentFrame_run_effects frames_run_effects
      playing_run_effects)

lemma playbackTick_paused: "\<not> playing s \<Longrightarrow> playbackTick s = Some s"
  by (simp add: playbackTick_def)

lemma ticks_paused: "\<not> playing s \<Longrightarrow> ticks k s = Some s"
  by (induction k) (simp_all add: playbackTick_paused)

lemma ticks_playing:
  "playing s \<Longrightarrow> frames s \<noteq> [] \<Longrightarrow>
   \<exists>s'. ticks k s = Some s' \<and>
        currentFrame s' mod length (frames s) = (currentFrame s + k) mod length (frames s) \<and>
        (0 < k \<longrightarrow> currentFrame s' < length (frames s)) \<and>
        frames s' = frames s \<and> playing s'"
proof (induction k arbitrary: s)
  case 0
  then show ?case by simp
next
  case (Suc k)
  from playbackTick_playing [OF Suc.prems]
  obtain t where t: "playbackTick s = Some t"
    "currentFrame t = (currentFrame s + 1) mod length (frames s)"
    "frames t = frames s" "playing t"
    by blast
  from Suc.IH [of t] t Suc.prems
  obtain u where u: "ticks k t = Some u"
    "currentFrame u mod length (frames s) = (currentFrame t + k) mod length (frames s)"
    "0 < k \<longrightarrow> currentFrame u < length (frames s)"
    "frames u = frames s" "playing u"
    by auto
  have "(currentFrame t + k) mod length (frames s) = (currentFrame s + Suc k) mod length (frames s)"
    by (simp add: t(2) mod_add_left_eq)
  moreover have "currentFrame u < length (frames s)"
  proof (cases k)
    case 0
    then have "u = t" using u(1) by simp
    then show ?thesis using t(2) Suc.prems by simp
  next
    case (Suc j)
    then show ?thesis using u(3) by simp
  qed
  ultimately show ?case using t(1) u by simp
qed

lemma playing_click_play: "playing (click_play s) = (\<not> playing s)"
  by (simp add: click_play_def playing_run_effects)

text \<open>
  C5. While playing, with \<open>N \<ge> 1\<close> frames and the cursor at \<open>c0\<close>, \<open>k\<close> ticks all
  return and leave the cursor at \<open>(c0 + k) mod N\<close>, the frames and the playing flag as they
  were (for \<open>k = 0\<close> the cursor \<open>c0\<close> is taken to be on a frame). Each single tick of a
  playing, non-empty store sets the cursor to \<open>(cursor + 1) mod length\<close>, with no test for
  the end of the animation. Once paused, no tick changes the state, the cursor included;
  the play button pauses a playing state.
\<close>

theorem playback_cursor_wraps:
  "(playing s \<and> frames s \<noteq> [] \<and> (0 < k \<or> currentFrame s < length (frames s)) \<longrightarrow>
      (\<exists>s'. ticks k s = Some s' \<and>
            currentFrame s' = (currentFrame s + k) mod length (frames s) \<and>
            frames s' = frames s \<and> playing s')) \<and>
   (playing s \<and> frames s \<noteq> [] \<longrightarrow>
      (\<exists>s'. playbackTick s = Some s' \<and>
            currentFrame s' = (currentFrame s + 1) mod length (frames s))) \<and>
   (\<not> playing s \<longrightarrow> playbackTick s = Some s \<and> ticks k s = Some s) \<and>
   (playing s \<longrightarrow> ticks k (click_play s) = Some (click_play s))"
proof -
  have run: "\<exists>s'. ticks k s = Some s' \<and>
            currentFrame s' = (currentFrame s + k) mod length (frames s) \<and>
            frames s' = frames s \<and> playing s'"
    if p: "playing s" and ne: "frames s \<noteq> []"
      and c: "0 < k \<or> currentFrame s < length (frames s)"
  proof -
    from ticks_playing [OF p ne, of k]
    obtain u where u: "ticks k s = Some u"
      "currentFrame u mod length (frames s) = (currentFrame s + k) mod length (frames s)"
      "0 < k \<longrightarrow> currentFrame u < length (frames s)"
      "frames u = frames s" "playing u"
      by blast
    have "currentFrame u < length (frames s)"
    proof (cases k)
      case 0
      then show ?thesis using u(1) c by simp
    next
      case (Suc j)
      then show ?thesis using u(3) by simp
    qed
    then have "currentFrame u = (currentFrame s + k) mod length (frames s)"
      using u(2) by simp
    then show ?thesis using u by simp
  qed
  have one: "\<exists>s'. playbackTick s = Some s' \<and>
            currentFrame s' = (currentFrame s + 1) mod length (frames s)"
    if "playing s" "frames s \<noteq> []"
    using playbackTick_playing [OF that] by blast
  have paused: "ticks k (click_play s) = Some (click_play s)" if "playing s"
    using that by (simp add: ticks_paused playing_click_play)
  show ?thesis using run one paused by (simp add: playbackTick_paused ticks_paused)
qed

theorem playback_cursor_wraps_witness:
  "playing playing_three \<and> frames playing_three \<noteq> [] \<and>
   currentFrame playing_three < length (frames playing_three) \<and>
   (\<exists>s'. ticks 4 playing_three = Some s' \<and> currentFrame s' = 2) \<and>
   (\<exists>s'. playbackTick playing_three = Some s' \<and> currentFrame s' = 2) \<and>
   ticks 4 (click_play playing_three) = Some (click_play playing_three) \<and>
   \<not> playing three_frames \<and> ticks 4 three_frames = Some three_frames"
proof -
  have h: "playing playing_three \<and> frames playing_three \<noteq> [] \<and>
      currentFrame playing_three < length (frames playing_three)"
    and np: "\<not> playing three_frames"
    by (simp_all add: playing_three_def three_frames_def init_app_def)
  have c: "currentFrame playing_three = 1" "length (frames playing_three) = 3"
    by (simp_all add: playing_three_def three_frames_def)
  from playback_cursor_wraps [of playing_three 4] h
  have "(\<exists>s'. ticks 4 playing_three = Some s' \<and> currentFrame s' = 2) \<and>
        (\<exists>s'. playbackTick playing_three = Some s' \<and> currentFrame s' = 2) \<and>
        ticks 4 (click_play playing_three) = Some (click_play playing_three)"
    by (auto simp add: c)
  moreover from playback_cursor_wraps [of three_frames 4] np
  have "ticks 4 three_frames = Some three_frames" by simp
  ultimately show ?thesis using h np by simp
qed

subsection \<open>Navigation\<close>

text \<open>
  C8. A click on the thumbnail of another frame \<open>i\<close> leaves every frame as it was and
  moves the cursor to \<open>i\<close>. The pixels read from the canvas afterwards are those of frame
  \<open>i\<close>: all bytes zero when the frame is blank, else the bytes of its image; the size of
  the canvas stays. Whatever pixels the canvas showed before have no influence on the
  canvas afterwards, so pixels that no frame held are gone from it, and the frame at the
  old cursor does not hold them afterwards either.
\<close>

theorem navigate_discards_uncommitted:
  assumes "i < length (frames s)" and "i \<noteq> currentFrame s"
  shows "frames (click_thumbnail i s) = frames s \<and>
         currentFrame (click_thumbnail i s) = i \<and>
         getImageData (canvas (click_thumbnail i s)) =
           (case frames s ! i of
              None \<Rightarrow> replicate (cv_width (canvas s) * cv_height (canvas s) * 4) 0
            | Some img \<Rightarrow> img) \<and>
         cv_width (canvas (click_thumbnail i s)) = cv_width (canvas s) \<and>
         cv_height (canvas (click_thumbnail i s)) = cv_height (canvas s) \<and>
         (\<forall>d. canvas (click_thumbnail i (s\<lparr>canvas := (canvas s)\<lparr>cv_data := d\<rparr>\<rparr>)) =
              canvas (click_thumbnail i s)) \<and>
         (js_index (frames s) (currentFrame s) \<noteq> Some (Some (getImageData (canvas s))) \<longrightarrow>
            js_index (frames (click_thumbnail i s)) (currentFrame s)
              \<noteq> Some (Some (getImageData (canvas s))))"
  using assms
  by (simp add: click_thumbnail_def run_effects_def effects_pass_def loadCurrentFrame_def
      js_index_def clearRect_def putImageData_def getImageData_def Let_def
      split: option.splits)

theorem navigate_discards_uncommitted_witness:
  "2 < length (frames unsaved_three) \<and> 2 \<noteq> currentFrame unsaved_three \<and>
   getImageData (canvas unsaved_three) = white_image \<and>
   js_index (frames unsaved_three) (currentFrame unsaved_three)
      \<noteq> Some (Some (getImageData (canvas unsaved_three))) \<and>
   getImageData (canvas (click_thumbnail 2 unsaved_three)) = replicate (520 * 390 * 4) 0 \<and>
   getImageData (canvas (click_thumbnail 2 unsaved_three))
      \<noteq> getImageData (canvas unsaved_three) \<and>
   frames (click_thumbnail 2 unsaved_three) = [None, Some white_image, None] \<and>
   js_index (frames (click_thumbnail 2 unsaved_three)) 0 = Some None"
proof -
  have h1: "2 < length (frames unsaved_three)" and h2: "2 \<noteq> currentFrame unsaved_three"
    and h3: "js_index (frames unsaved_three) (currentFrame unsaved_three)
      \<noteq> Some (Some (getImageData (canvas unsaved_three)))"
    by (simp_all add: unsaved_three_def three_frames_def init_app_def js_index_def)
  have before: "getImageData (canvas unsaved_three) = white_image"
    by (simp add: unsaved_three_def getImageData_def putImageData_def)
  have size: "cv_width (canvas unsaved_three) = 520" "cv_height (canvas unsaved_three) = 390"
    by (simp_all add: unsaved_three_def putImageData_def init_app_def new_canvas_def
        CANVAS_WIDTH_def CANVAS_HEIGHT_def)
  have fs: "frames unsaved_three = [None, Some white_image, None]"
    by (simp add: unsaved_three_def three_frames_def)
  have differ: "replicate (520 * 390 * 4) 0 \<noteq> white_image"
    by (simp add: white_image_def CANVAS_WIDTH_def CANVAS_HEIGHT_def)
  show ?thesis
    using h1 h2 h3 differ navigate_discards_uncommitted [OF h1 h2]
    by (simp add: before size fs js_index_def)
qed

subsection \<open>Pointer events\<close>

text \<open>
  C9. A pointer move while no stroke is active, or while the tool is not the brush,
  leaves the whole state as it is: canvas, dirty flag, frames, cursor and last point. This
  is the case after a pointer-up or pointer-leave, and in the initial state.
\<close>

theorem pointerMove_without_stroke_is_noop:
  "(\<not> drawing s \<or> tool s \<noteq> ''brush'' \<longrightarrow> on_pointerMove stroke e s = s) \<and>
   on_pointerMove stroke e (on_pointerUp s) = on_pointerUp s \<and>
   on_pointerMove stroke e init_app = init_app"
  by (auto simp add: on_pointerMove_def handlePointerMove_def on_pointerUp_def handlePointerUp_def
      run_effects_def effects_pass_def init_app_def)

theorem pointerMove_without_stroke_is_noop_witness:
  "\<not> drawing three_frames \<and> on_pointerMove ink border_event three_frames = three_frames \<and>
   tool (playing_three\<lparr>drawing := True, tool := ''rect''\<rparr>) \<noteq> ''brush'' \<and>
   on_pointerMove ink border_event (playing_three\<lparr>drawing := True, tool := ''rect''\<rparr>) =
     playing_three\<lparr>drawing := True, tool := ''rect''\<rparr>"
proof -
  let ?r = "playing_three\<lparr>drawing := True, tool := ''rect''\<rparr>"
  have h1: "\<not> drawing three_frames"
    by (simp add: three_frames_def init_app_def)
  have h2: "tool ?r \<noteq> ''brush''"
    by simp
  show ?thesis
    using h1 h2 pointerMove_without_stroke_is_noop [of three_frames ink border_event]
      pointerMove_without_stroke_is_noop [of ?r ink border_event]
    by simp
qed












subsection \<open>Export\<close>












lemma handleExport_example:
  "map fst (dl_zip (handleExport (init_app\<lparr>frames := [None, Some a, None, Some b]\<rparr>))) =
     [''frame2.png'', ''frame4.png'']"
  by (simp add: handleExport_def export_step_def zip_file_def frame_file_name_def
      decimal.simps digit_char_def) code_simp


end
